theory Spec2Isabelle
  imports Complex_Main
begin

section \<open>The study-session completion predictor (api.py)\<close>

text \<open>
  The repository is one module, \<^verbatim>\<open>api.py\<close>, with one route handler,
  \<^verbatim>\<open>predict_completion\<close>. The handler is embedded below as a HOL function from the
  request to either a raised exception or the returned body.

  Numbers. Python's \<^verbatim>\<open>float\<close> is IEEE binary64. The handler is embedded twice.
  \<open>predict_completion\<close> computes in exact real arithmetic, with no rounding, no
  overflow, no NaN and no infinity: this is the arithmetic in which the specification
  states the fit and its worked example, and a result about it is a result in exact
  arithmetic. \<open>predict_completion_f\<close>, in the second section, takes the binary64
  operations and the fit as parameters: a result about it holds for whatever the
  libraries compute.

  Strings. A Python \<^verbatim>\<open>str\<close> is a \<^typ>\<open>string\<close>; the digits that the date parser
  recognises are the ASCII digits.

  Library code. \<^verbatim>\<open>datetime\<close>, \<^verbatim>\<open>numpy.cumsum\<close> and
  \<^verbatim>\<open>sklearn.linear_model.LinearRegression\<close> are not part of the repository; the
  part of each that the handler calls is written out from the library's own algorithm.
\<close>

subsection \<open>Exceptions\<close>

datatype py_error = ValueError | OverflowError

subsection \<open>Data models (api.py, lines 22-28)\<close>

record StudySession =
  date :: string
  hours :: real

record PredictionRequest =
  sessions :: "StudySession list"
  remaining_hours :: real

text \<open>
  The three dictionaries that the handler returns. \<open>status_of\<close> and \<open>message_of\<close> give
  the literal strings of the source.
\<close>

datatype response =
    InsufficientData
  | Stalled
  | Success (predicted_date: string) (velocity_hours_per_day: real)

fun status_of :: "response \<Rightarrow> string" where
  "status_of InsufficientData = ''insufficient_data''"
| "status_of Stalled = ''stalled''"
| "status_of (Success _ _) = ''success''"

fun message_of :: "response \<Rightarrow> string option" where
  "message_of InsufficientData = Some ''Need at least 3 study sessions to predict.''"
| "message_of Stalled = Some ''Velocity is zero or negative.''"
| "message_of (Success _ _) = None"

subsection \<open>Calendar dates (the part of \<^verbatim>\<open>datetime\<close> that the handler uses)\<close>

text \<open>
  \<^verbatim>\<open>strptime(s, "%Y-%m-%d")\<close> yields a datetime at midnight, so only year, month and
  day are kept. The ordinal functions are those of the proleptic Gregorian calendar of
  \<^verbatim>\<open>datetime\<close>: day 1 is 0001-01-01.
\<close>

record datetime =
  year :: int
  month :: int
  day :: int

definition MINYEAR :: int where "MINYEAR = 1"
definition MAXYEAR :: int where "MAXYEAR = 9999"
definition MAXORDINAL :: int where "MAXORDINAL = 3652059"

definition is_leap :: "int \<Rightarrow> bool" where
  "is_leap y = (y mod 4 = 0 \<and> (y mod 100 \<noteq> 0 \<or> y mod 400 = 0))"

definition DAYS_IN_MONTH :: "int \<Rightarrow> int" where
  "DAYS_IN_MONTH m =
     (if m = 2 then 28
      else if m = 4 \<or> m = 6 \<or> m = 9 \<or> m = 11 then 30
      else 31)"

definition DAYS_BEFORE_MONTH :: "int \<Rightarrow> int" where
  "DAYS_BEFORE_MONTH m =
     (if m = 1 then 0 else if m = 2 then 31 else if m = 3 then 59
      else if m = 4 then 90 else if m = 5 then 120 else if m = 6 then 151
      else if m = 7 then 181 else if m = 8 then 212 else if m = 9 then 243
      else if m = 10 then 273 else if m = 11 then 304 else 334)"

definition days_in_month :: "int \<Rightarrow> int \<Rightarrow> int" where
  "days_in_month y m = (if m = 2 \<and> is_leap y then 29 else DAYS_IN_MONTH m)"

definition days_before_year :: "int \<Rightarrow> int" where
  "days_before_year y =
     (let p = y - 1 in p * 365 + p div 4 - p div 100 + p div 400)"

definition days_before_month :: "int \<Rightarrow> int \<Rightarrow> int" where
  "days_before_month y m =
     DAYS_BEFORE_MONTH m + (if 2 < m \<and> is_leap y then 1 else 0)"

definition toordinal :: "datetime \<Rightarrow> int" where
  "toordinal d = days_before_year (year d) + days_before_month (year d) (month d) + day d"

definition DI400Y :: int where "DI400Y = 146097"
definition DI100Y :: int where "DI100Y = 36524"
definition DI4Y :: int where "DI4Y = 1461"

definition fromordinal :: "int \<Rightarrow> datetime" where
  "fromordinal n0 =
     (let n = n0 - 1;
          n400 = n div DI400Y; n = n mod DI400Y;
          y = n400 * 400 + 1;
          n100 = n div DI100Y; n = n mod DI100Y;
          n4 = n div DI4Y; n = n mod DI4Y;
          n1 = n div 365; n = n mod 365;
          y = y + n100 * 100 + n4 * 4 + n1
      in if n1 = 4 \<or> n100 = 4 then \<lparr>year = y - 1, month = 12, day = 31\<rparr>
         else
           let leapyear = (n1 = 3 \<and> (n4 \<noteq> 24 \<or> n100 = 3));
               m = (n + 50) div 32;
               preceding = DAYS_BEFORE_MONTH m + (if 2 < m \<and> leapyear then 1 else 0)
           in if n < preceding
              then let m' = m - 1;
                       preceding' = preceding
                         - (DAYS_IN_MONTH m' + (if m' = 2 \<and> leapyear then 1 else 0))
                   in \<lparr>year = y, month = m', day = n - preceding' + 1\<rparr>
              else \<lparr>year = y, month = m, day = n - preceding + 1\<rparr>)"

text \<open>Comparison of datetimes is lexicographic on (year, month, day).\<close>

definition datetime_less :: "datetime \<Rightarrow> datetime \<Rightarrow> bool" where
  "datetime_less a b =
     (year a < year b \<or> (year a = year b \<and>
       (month a < month b \<or> (month a = month b \<and> day a < day b))))"

text \<open>
  \<^verbatim>\<open>min(dates)\<close>: the first smallest element. The handler calls it on a list of at
  least three elements; on the empty list Python raises \<^verbatim>\<open>ValueError\<close>.
\<close>

fun min_from :: "datetime \<Rightarrow> datetime list \<Rightarrow> datetime" where
  "min_from m [] = m"
| "min_from m (d # ds) = min_from (if datetime_less d m then d else m) ds"

definition min_dates :: "datetime list \<Rightarrow> py_error + datetime" where
  "min_dates ds = (case ds of [] \<Rightarrow> Inl ValueError | d # rest \<Rightarrow> Inr (min_from d rest))"

text \<open>\<^verbatim>\<open>(d - start_date).days\<close>: the difference of the two ordinals.\<close>

definition days_between :: "datetime \<Rightarrow> datetime \<Rightarrow> int" where
  "days_between d start = toordinal d - toordinal start"

text \<open>
  \<^verbatim>\<open>timedelta(days=k)\<close> raises \<^verbatim>\<open>OverflowError\<close> when \<open>k\<close> is beyond
  999999999 days in magnitude; \<^verbatim>\<open>datetime + timedelta\<close> raises it when the resulting
  ordinal is not in \<open>1 .. MAXORDINAL\<close> (0001-01-01 to 9999-12-31).
\<close>

definition timedelta :: "int \<Rightarrow> py_error + int" where
  "timedelta k = (if \<bar>k\<bar> \<le> 999999999 then Inr k else Inl OverflowError)"

definition datetime_add :: "datetime \<Rightarrow> int \<Rightarrow> py_error + datetime" where
  "datetime_add d k =
     (let n = toordinal d + k
      in if 0 < n \<and> n \<le> MAXORDINAL then Inr (fromordinal n) else Inl OverflowError)"

subsection \<open>\<^verbatim>\<open>datetime.strptime(s, "%Y-%m-%d")\<close>\<close>

text \<open>
  The format compiles to the regular expression
  \<^verbatim>\<open>(\d\d\d\d)-(1[0-2]|0[1-9]|[1-9])-(3[0-1]|[1-2]\d|0[1-9]|[1-9]| [1-9])\<close>,
  matched at the start of the string; the match must consume the whole string, and the
  three numbers must form a date of the calendar. Every failure is a
  \<^verbatim>\<open>ValueError\<close>. The alternatives are tried in the order written; after a two-character
  month no shorter alternative can be followed by \<^verbatim>\<open>-\<close>, so the first alternative that
  matches decides.
\<close>

definition is_digit :: "char \<Rightarrow> bool" where
  "is_digit c = (48 \<le> (of_char c :: nat) \<and> (of_char c :: nat) \<le> 57)"

definition digit_val :: "char \<Rightarrow> int" where
  "digit_val c = int (of_char c) - 48"

definition in_range :: "char \<Rightarrow> nat \<Rightarrow> nat \<Rightarrow> bool" where
  "in_range c lo hi = (48 + lo \<le> (of_char c :: nat) \<and> (of_char c :: nat) \<le> 48 + hi)"

fun match_Y :: "string \<Rightarrow> (int \<times> string) option" where
  "match_Y (a # b # c # d # rest) =
     (if is_digit a \<and> is_digit b \<and> is_digit c \<and> is_digit d
      then Some (digit_val a * 1000 + digit_val b * 100 + digit_val c * 10 + digit_val d, rest)
      else None)"
| "match_Y _ = None"

fun match_dash :: "string \<Rightarrow> string option" where
  "match_dash (c # rest) = (if c = CHR ''-'' then Some rest else None)"
| "match_dash [] = None"

fun match_m :: "string \<Rightarrow> (int \<times> string) option" where
  "match_m (a # b # rest) =
     (if a = CHR ''1'' \<and> in_range b 0 2 then Some (10 + digit_val b, rest)
      else if a = CHR ''0'' \<and> in_range b 1 9 then Some (digit_val b, rest)
      else if in_range a 1 9 then Some (digit_val a, b # rest)
      else None)"
| "match_m [a] = (if in_range a 1 9 then Some (digit_val a, []) else None)"
| "match_m [] = None"

fun match_d :: "string \<Rightarrow> (int \<times> string) option" where
  "match_d (a # b # rest) =
     (if a = CHR ''3'' \<and> in_range b 0 1 then Some (30 + digit_val b, rest)
      else if in_range a 1 2 \<and> is_digit b then Some (digit_val a * 10 + digit_val b, rest)
      else if a = CHR ''0'' \<and> in_range b 1 9 then Some (digit_val b, rest)
      else if in_range a 1 9 then Some (digit_val a, b # rest)
      else if a = CHR '' '' \<and> in_range b 1 9 then Some (digit_val b, rest)
      else None)"
| "match_d [a] = (if in_range a 1 9 then Some (digit_val a, []) else None)"
| "match_d [] = None"

text \<open>The constructor of a date: the range checks of \<^verbatim>\<open>datetime(year, month, day)\<close>.\<close>

definition make_datetime :: "int \<Rightarrow> int \<Rightarrow> int \<Rightarrow> py_error + datetime" where
  "make_datetime y m d =
     (if MINYEAR \<le> y \<and> y \<le> MAXYEAR \<and> 1 \<le> m \<and> m \<le> 12
         \<and> 1 \<le> d \<and> d \<le> days_in_month y m
      then Inr \<lparr>year = y, month = m, day = d\<rparr>
      else Inl ValueError)"

definition strptime :: "string \<Rightarrow> py_error + datetime" where
  "strptime s =
     (case match_Y s of None \<Rightarrow> Inl ValueError
      | Some (y, s1) \<Rightarrow>
     (case match_dash s1 of None \<Rightarrow> Inl ValueError
      | Some s2 \<Rightarrow>
     (case match_m s2 of None \<Rightarrow> Inl ValueError
      | Some (m, s3) \<Rightarrow>
     (case match_dash s3 of None \<Rightarrow> Inl ValueError
      | Some s4 \<Rightarrow>
     (case match_d s4 of None \<Rightarrow> Inl ValueError
      | Some (d, s5) \<Rightarrow>
        if s5 = [] then make_datetime y m d else Inl ValueError)))))"

text \<open>
  The list comprehension of line 37 parses the dates in request order and stops at the
  first one that raises.
\<close>

fun parse_dates :: "StudySession list \<Rightarrow> py_error + datetime list" where
  "parse_dates [] = Inr []"
| "parse_dates (s # ss) =
     (case strptime (date s) of Inl e \<Rightarrow> Inl e
      | Inr d \<Rightarrow> (case parse_dates ss of Inl e \<Rightarrow> Inl e | Inr ds \<Rightarrow> Inr (d # ds)))"

subsection \<open>\<^verbatim>\<open>strftime("%Y-%m-%d")\<close>\<close>

text \<open>
  \<^verbatim>\<open>%Y\<close> is the year in decimal as the C library of the platform prints it: glibc does
  not pad it, so a year below 1000 has fewer than four digits ("999-01-05",
  "1-01-01"). The month and the day have two digits each.
\<close>

definition digit_char :: "int \<Rightarrow> char" where
  "digit_char k = char_of (48 + nat (k mod 10))"

definition year_digits :: "int \<Rightarrow> string" where
  "year_digits y =
     (if y < 10 then [digit_char y]
      else if y < 100 then [digit_char (y div 10), digit_char y]
      else if y < 1000 then [digit_char (y div 100), digit_char (y div 10), digit_char y]
      else [digit_char (y div 1000), digit_char (y div 100), digit_char (y div 10),
            digit_char y])"

definition strftime :: "datetime \<Rightarrow> string" where
  "strftime d =
     year_digits (year d)
     @ [CHR ''-'', digit_char (month d div 10), digit_char (month d),
        CHR ''-'', digit_char (day d div 10), digit_char (day d)]"

subsection \<open>\<^verbatim>\<open>numpy.cumsum\<close>\<close>

fun cumsum_from :: "real \<Rightarrow> real list \<Rightarrow> real list" where
  "cumsum_from acc [] = []"
| "cumsum_from acc (h # hs) = (acc + h) # cumsum_from (acc + h) hs"

definition cumsum :: "real list \<Rightarrow> real list" where
  "cumsum hs = cumsum_from 0 hs"

subsection \<open>\<^verbatim>\<open>LinearRegression().fit(X, y)\<close> with one feature\<close>

text \<open>
  Modelled from the spec: \<^verbatim>\<open>LinearRegression\<close> is scikit-learn's class and is not
  among the repository's files. The specification describes its fit as the line
  \<open>y = slope * x + intercept\<close> that minimises the sum of squared residuals. The
  definition computes that line as the library does with the default
  \<^verbatim>\<open>fit_intercept=True\<close>: both variables are centred on their means, the centred
  system is solved by \<^verbatim>\<open>scipy.linalg.lstsq\<close>, which returns the least-squares
  solution of minimum norm, and the intercept is \<^verbatim>\<open>y_offset - X_offset * coef_\<close>.
  With a single column the minimum-norm solution is \<open>(\<Sum> xc * yc) / (\<Sum> xc * xc)\<close>, and
  \<open>0\<close> when the centred column is zero. That the result minimises the sum of squared
  residuals is lemma \<open>fit_least_squares\<close>.
\<close>

definition average :: "real list \<Rightarrow> real" where
  "average vs = sum_list vs / real (length vs)"

definition centre :: "real list \<Rightarrow> real list" where
  "centre vs = map (\<lambda>v. v - average vs) vs"

definition dot :: "real list \<Rightarrow> real list \<Rightarrow> real" where
  "dot us vs = sum_list (map (\<lambda>(u, v). u * v) (zip us vs))"

definition lstsq :: "real list \<Rightarrow> real list \<Rightarrow> real" where
  "lstsq xc yc = (if dot xc xc = 0 then 0 else dot xc yc / dot xc xc)"

record LinearRegression =
  coef :: real
  intercept :: real

definition fit :: "real list \<Rightarrow> real list \<Rightarrow> LinearRegression" where
  "fit X y =
     (let X_offset = average X;
          y_offset = average y;
          c = lstsq (centre X) (centre y)
      in \<lparr>coef = c, intercept = y_offset - X_offset * c\<rparr>)"

subsection \<open>\<^verbatim>\<open>int(days_needed)\<close> and \<^verbatim>\<open>round(velocity, 2)\<close>\<close>

text \<open>
  \<^verbatim>\<open>int\<close> of a float discards the fraction (rounds toward zero).
  \<^verbatim>\<open>velocity\<close> is a \<^verbatim>\<open>numpy.float64\<close>, whose \<^verbatim>\<open>round(v, 2)\<close> scales by 100,
  rounds to the nearest integer with ties to the even one, and scales back.
\<close>

definition py_int :: "real \<Rightarrow> int" where
  "py_int r = (if 0 \<le> r then \<lfloor>r\<rfloor> else \<lceil>r\<rceil>)"

definition rint :: "real \<Rightarrow> int" where
  "rint r =
     (let f = \<lfloor>r\<rfloor>; t = r - of_int f
      in if t < 1 / 2 then f
         else if 1 / 2 < t then f + 1
         else if even f then f else f + 1)"

definition round2 :: "real \<Rightarrow> real" where
  "round2 v = of_int (rint (v * 100)) / 100"

subsection \<open>The route handler (api.py, lines 30-69)\<close>

text \<open>
  Lines 35-43, "Prepare Data for Linear Regression": the parsed dates, their minimum,
  the day offsets (in request order) and the running total of the hours (in request
  order). \<^verbatim>\<open>numpy\<close> turns the integer offsets into floats for the fit.
\<close>

record prepared =
  start_date :: datetime
  days_since_start :: "real list"
  cumulative_hours :: "real list"

definition prepare_data :: "PredictionRequest \<Rightarrow> py_error + prepared" where
  "prepare_data data =
     (case parse_dates (sessions data) of Inl e \<Rightarrow> Inl e
      | Inr dates \<Rightarrow>
     (case min_dates dates of Inl e \<Rightarrow> Inl e
      | Inr start \<Rightarrow>
          Inr \<lparr>start_date = start,
               days_since_start = map (\<lambda>d. real_of_int (days_between d start)) dates,
               cumulative_hours = cumsum (map hours (sessions data))\<rparr>))"

text \<open>The handler: the guard of line 32, the preparation, the fit and the projection.\<close>

definition predict_completion :: "PredictionRequest \<Rightarrow> py_error + response" where
  "predict_completion data =
     (if length (sessions data) < 3 then Inr InsufficientData
      else
        (case prepare_data data of Inl e \<Rightarrow> Inl e
         | Inr p \<Rightarrow>
           let model = fit (days_since_start p) (cumulative_hours p);
               current_total = last (cumulative_hours p);
               target_total = current_total + remaining_hours data;
               velocity = coef model
           in if velocity \<le> 0 then Inr Stalled
              else
                let days_needed = (target_total - intercept model) / velocity
                in (case timedelta (py_int days_needed) of Inl e \<Rightarrow> Inl e
                    | Inr delta \<Rightarrow>
                    (case datetime_add (start_date p) delta of Inl e \<Rightarrow> Inl e
                     | Inr finish_date \<Rightarrow>
                         Inr (Success (strftime finish_date) (round2 velocity))))))"

subsection \<open>The route \<^verbatim>\<open>POST /predict\<close>\<close>

text \<open>
  The framework validates the body against \<^verbatim>\<open>PredictionRequest\<close> before it calls the
  handler; the two models declare field types and no constraint, so every value of
  \<^typ>\<open>PredictionRequest\<close> is a body that passes. A dictionary returned by the handler
  is sent with status 200. The handler catches nothing and raises no
  \<^verbatim>\<open>HTTPException\<close>, so an exception that leaves it is answered with status 500.
\<close>

datatype http_response = HTTP_OK response | HTTP_Internal_Server_Error

definition post_predict :: "PredictionRequest \<Rightarrow> http_response" where
  "post_predict data =
     (case predict_completion data of
        Inr body \<Rightarrow> HTTP_OK body
      | Inl e \<Rightarrow> HTTP_Internal_Server_Error)"

fun status_code :: "http_response \<Rightarrow> nat" where
  "status_code (HTTP_OK _) = 200"
| "status_code HTTP_Internal_Server_Error = 500"

definition is_client_error :: "http_response \<Rightarrow> bool" where
  "is_client_error r = (400 \<le> status_code r \<and> status_code r < 500)"

subsection \<open>The closed-form line fit of the specification\<close>




text \<open>The sum of squared residuals of the line \<open>y = a * x + b\<close> on the points.\<close>

definition ssr :: "real list \<Rightarrow> real list \<Rightarrow> real \<Rightarrow> real \<Rightarrow> real" where
  "ssr xs ys a b = sum_list (map (\<lambda>(x, y). (y - (a * x + b))\<^sup>2) (zip xs ys))"

text \<open>A date of the calendar, as the constructor checks it.\<close>

definition valid_date :: "datetime \<Rightarrow> bool" where
  "valid_date d =
     (MINYEAR \<le> year d \<and> year d \<le> MAXYEAR \<and> 1 \<le> month d \<and> month d \<le> 12
      \<and> 1 \<le> day d \<and> day d \<le> days_in_month (year d) (month d))"

section \<open>The handler over any binary64 arithmetic\<close>

text \<open>
  Python's \<^verbatim>\<open>float\<close> and \<^verbatim>\<open>numpy.float64\<close> are IEEE binary64: a result is rounded, can
  overflow to an infinity and can be NaN. A binary64 value is modelled as a finite real,
  an infinity or NaN (the two zeros are not distinguished). The hours and the remaining
  hours of a request are finite values.

  The operations on these values are parameters of the embedding, not definitions:
  \<open>fadd\<close>, \<open>fsub\<close> and \<open>fdiv\<close> are \<^verbatim>\<open>+\<close>, \<^verbatim>\<open>-\<close> and \<^verbatim>\<open>/\<close> on
  \<^verbatim>\<open>numpy.float64\<close>, \<open>fround2\<close> is \<^verbatim>\<open>round(v, 2)\<close>, and \<open>ffit\<close> is
  \<^verbatim>\<open>LinearRegression().fit\<close> followed by reading \<^verbatim>\<open>coef_[0]\<close> and
  \<^verbatim>\<open>intercept_\<close>, which can raise. A theorem about \<open>predict_completion_f num\<close> for
  every \<open>num\<close> holds for whatever the libraries compute.
\<close>

datatype float64 = Finite real | PosInf | NegInf | NaN

record numerics =
  fadd :: "float64 \<Rightarrow> float64 \<Rightarrow> float64"
  fsub :: "float64 \<Rightarrow> float64 \<Rightarrow> float64"
  fdiv :: "float64 \<Rightarrow> float64 \<Rightarrow> float64"
  fround2 :: "float64 \<Rightarrow> float64"
  ffit :: "int list \<Rightarrow> float64 list \<Rightarrow> py_error + float64 \<times> float64"

text \<open>
  \<^verbatim>\<open>velocity <= 0\<close> is false for NaN. \<^verbatim>\<open>int\<close> of a float discards the fraction of a
  finite value, raises \<^verbatim>\<open>OverflowError\<close> for an infinity and
  \<^verbatim>\<open>ValueError\<close> for NaN.
\<close>

fun float_le_zero :: "float64 \<Rightarrow> bool" where
  "float_le_zero (Finite r) = (r \<le> 0)"
| "float_le_zero NegInf = True"
| "float_le_zero PosInf = False"
| "float_le_zero NaN = False"

fun float_int :: "float64 \<Rightarrow> py_error + int" where
  "float_int (Finite r) = Inr (py_int r)"
| "float_int PosInf = Inl OverflowError"
| "float_int NegInf = Inl OverflowError"
| "float_int NaN = Inl ValueError"

text \<open>
  \<^verbatim>\<open>numpy.cumsum\<close>: the first element as it is, then each element added to the total
  so far.
\<close>

fun accumulate :: "(float64 \<Rightarrow> float64 \<Rightarrow> float64) \<Rightarrow> float64 \<Rightarrow> float64 list \<Rightarrow> float64 list" where
  "accumulate add acc [] = []"
| "accumulate add acc (h # hs) = add acc h # accumulate add (add acc h) hs"

definition cumsum_f :: "(float64 \<Rightarrow> float64 \<Rightarrow> float64) \<Rightarrow> float64 list \<Rightarrow> float64 list" where
  "cumsum_f add hs = (case hs of [] \<Rightarrow> [] | h # rest \<Rightarrow> h # accumulate add h rest)"

text \<open>The three dictionaries, with the velocity as a binary64 value.\<close>

datatype body =
    Body_insufficient_data
  | Body_stalled
  | Body_success string float64

text \<open>Lines 35-43. The day offsets are integers; the fit receives them as such.\<close>

record prepared_f =
  start_date_f :: datetime
  days_since_start_f :: "int list"
  cumulative_hours_f :: "float64 list"

definition prepare_data_f :: "numerics \<Rightarrow> PredictionRequest \<Rightarrow> py_error + prepared_f" where
  "prepare_data_f num data =
     (case parse_dates (sessions data) of Inl e \<Rightarrow> Inl e
      | Inr dates \<Rightarrow>
     (case min_dates dates of Inl e \<Rightarrow> Inl e
      | Inr start \<Rightarrow>
          Inr \<lparr>start_date_f = start,
               days_since_start_f = map (\<lambda>d. days_between d start) dates,
               cumulative_hours_f =
                 cumsum_f (fadd num) (map (\<lambda>s. Finite (hours s)) (sessions data))\<rparr>))"

text \<open>Lines 49-69, "Predict Future" and "Result", from the fitted slope and intercept.\<close>

definition predict_future ::
  "numerics \<Rightarrow> PredictionRequest \<Rightarrow> prepared_f \<Rightarrow> float64 \<times> float64 \<Rightarrow> py_error + body" where
  "predict_future num data p model =
     (let current_total = last (cumulative_hours_f p);
          target_total = fadd num current_total (Finite (remaining_hours data));
          velocity = fst model
      in if float_le_zero velocity then Inr Body_stalled
         else
           let days_needed = fdiv num (fsub num target_total (snd model)) velocity
           in (case float_int days_needed of Inl e \<Rightarrow> Inl e
               | Inr k \<Rightarrow>
               (case timedelta k of Inl e \<Rightarrow> Inl e
                | Inr delta \<Rightarrow>
                (case datetime_add (start_date_f p) delta of Inl e \<Rightarrow> Inl e
                 | Inr finish_date \<Rightarrow>
                     Inr (Body_success (strftime finish_date) (fround2 num velocity))))))"

text \<open>The handler: the guard of line 32, the preparation, the fit, the projection.\<close>

definition predict_completion_f :: "numerics \<Rightarrow> PredictionRequest \<Rightarrow> py_error + body" where
  "predict_completion_f num data =
     (if length (sessions data) < 3 then Inr Body_insufficient_data
      else
        (case prepare_data_f num data of Inl e \<Rightarrow> Inl e
         | Inr p \<Rightarrow>
           (case ffit num (days_since_start_f p) (cumulative_hours_f p) of Inl e \<Rightarrow> Inl e
            | Inr model \<Rightarrow> predict_future num data p model)))"

text \<open>
  The status of the response: 500 for an exception that leaves the handler, 200 for a
  returned dictionary. The framework serialises the dictionary with
  \<^verbatim>\<open>json.dumps(..., allow_nan=False)\<close>, which raises for a velocity that is not
  finite, so that response is a 500 too.
\<close>

fun response_status :: "py_error + body \<Rightarrow> nat" where
  "response_status (Inl e) = 500"
| "response_status (Inr (Body_success d (Finite v))) = 200"
| "response_status (Inr (Body_success d v)) = 500"
| "response_status (Inr b) = 200"

definition post_predict_status :: "numerics \<Rightarrow> PredictionRequest \<Rightarrow> nat" where
  "post_predict_status num data = response_status (predict_completion_f num data)"

subsection \<open>An arithmetic for the examples\<close>

text \<open>
  Modelled from the spec: the binary64 operations of \<^verbatim>\<open>numpy\<close> and the fit of
  scikit-learn are not among the repository's files. \<open>ideal_numerics\<close> is an arithmetic
  on which the handler can be evaluated: binary64 without rounding error. A result is
  exact when its magnitude is below \<open>2 ^ 1024\<close> and the infinity of its sign
  otherwise; infinities and NaN follow the IEEE rules. Its fit is the least-squares line
  of the specification (\<open>fit\<close>), and it raises \<^verbatim>\<open>ValueError\<close> when a running total
  is not finite, as the input validation of scikit-learn does.
\<close>

definition binary64_limit :: real where
  "binary64_limit = 2 ^ 1024"

definition overflow :: "real \<Rightarrow> float64" where
  "overflow r =
     (if \<bar>r\<bar> < binary64_limit then Finite r else if 0 < r then PosInf else NegInf)"

fun fneg :: "float64 \<Rightarrow> float64" where
  "fneg (Finite a) = Finite (- a)"
| "fneg PosInf = NegInf"
| "fneg NegInf = PosInf"
| "fneg NaN = NaN"

fun ideal_add :: "float64 \<Rightarrow> float64 \<Rightarrow> float64" where
  "ideal_add (Finite a) (Finite b) = overflow (a + b)"
| "ideal_add (Finite a) PosInf = PosInf"
| "ideal_add (Finite a) NegInf = NegInf"
| "ideal_add PosInf (Finite b) = PosInf"
| "ideal_add PosInf PosInf = PosInf"
| "ideal_add NegInf (Finite b) = NegInf"
| "ideal_add NegInf NegInf = NegInf"
| "ideal_add a b = NaN"

definition ideal_sub :: "float64 \<Rightarrow> float64 \<Rightarrow> float64" where
  "ideal_sub a b = ideal_add a (fneg b)"

fun ideal_div :: "float64 \<Rightarrow> float64 \<Rightarrow> float64" where
  "ideal_div (Finite a) (Finite b) =
     (if b \<noteq> 0 then overflow (a / b)
      else if a = 0 then NaN else if 0 < a then PosInf else NegInf)"
| "ideal_div (Finite a) PosInf = Finite 0"
| "ideal_div (Finite a) NegInf = Finite 0"
| "ideal_div PosInf (Finite b) = (if 0 \<le> b then PosInf else NegInf)"
| "ideal_div NegInf (Finite b) = (if 0 \<le> b then NegInf else PosInf)"
| "ideal_div a b = NaN"

fun ideal_round2 :: "float64 \<Rightarrow> float64" where
  "ideal_round2 (Finite v) = Finite (round2 v)"
| "ideal_round2 v = v"

fun finite_values :: "float64 list \<Rightarrow> real list option" where
  "finite_values [] = Some []"
| "finite_values (Finite r # vs) = map_option ((#) r) (finite_values vs)"
| "finite_values (v # vs) = None"

definition ideal_fit :: "int list \<Rightarrow> float64 list \<Rightarrow> py_error + float64 \<times> float64" where
  "ideal_fit X y =
     (case finite_values y of None \<Rightarrow> Inl ValueError
      | Some ys \<Rightarrow>
          let model = fit (map real_of_int X) ys
          in Inr (overflow (coef model), overflow (intercept model)))"

definition ideal_numerics :: numerics where
  "ideal_numerics =
     \<lparr>fadd = ideal_add, fsub = ideal_sub, fdiv = ideal_div, fround2 = ideal_round2,
      ffit = ideal_fit\<rparr>"

section \<open>Example requests\<close>

definition spec_example :: PredictionRequest where
  "spec_example =
     \<lparr>sessions = [\<lparr>date = ''2024-01-01'', hours = 2\<rparr>, \<lparr>date = ''2024-01-02'', hours = 2\<rparr>,
                  \<lparr>date = ''2024-01-03'', hours = 2\<rparr>],
      remaining_hours = 4\<rparr>"


definition bad_date_example :: PredictionRequest where
  "bad_date_example =
     \<lparr>sessions = [\<lparr>date = ''2024-01-01'', hours = 2\<rparr>, \<lparr>date = ''2024-02-30'', hours = 2\<rparr>,
                  \<lparr>date = ''2024-01-03'', hours = 2\<rparr>],
      remaining_hours = 4\<rparr>"

definition negative_days_example :: PredictionRequest where
  "negative_days_example =
     \<lparr>sessions = [\<lparr>date = ''2024-01-10'', hours = 1\<rparr>, \<lparr>date = ''2024-01-11'', hours = 1\<rparr>,
                  \<lparr>date = ''2024-01-12'', hours = 1\<rparr>],
      remaining_hours = - 11 / 2\<rparr>"

definition last_days_example :: PredictionRequest where
  "last_days_example =
     \<lparr>sessions = [\<lparr>date = ''9999-12-29'', hours = 1\<rparr>, \<lparr>date = ''9999-12-30'', hours = 1\<rparr>,
                  \<lparr>date = ''9999-12-31'', hours = 1\<rparr>],
      remaining_hours = 2\<rparr>"

definition first_days_example :: PredictionRequest where
  "first_days_example =
     \<lparr>sessions = [\<lparr>date = ''0001-01-01'', hours = 2\<rparr>, \<lparr>date = ''0001-01-02'', hours = 2\<rparr>,
                  \<lparr>date = ''0001-01-03'', hours = 2\<rparr>],
      remaining_hours = - 10\<rparr>"

definition negative_remaining_example :: PredictionRequest where
  "negative_remaining_example =
     \<lparr>sessions = [\<lparr>date = ''2024-06-10'', hours = 1\<rparr>, \<lparr>date = ''2024-06-11'', hours = 2\<rparr>,
                  \<lparr>date = ''2024-06-12'', hours = 3\<rparr>],
      remaining_hours = - 1\<rparr>"

definition negative_remaining_overflow :: PredictionRequest where
  "negative_remaining_overflow =
     \<lparr>sessions = [\<lparr>date = ''0001-01-01'', hours = 1\<rparr>, \<lparr>date = ''0001-01-02'', hours = 1\<rparr>,
                  \<lparr>date = ''0001-01-03'', hours = 1\<rparr>],
      remaining_hours = - 5\<rparr>"

definition negative_hours_example :: PredictionRequest where
  "negative_hours_example =
     \<lparr>sessions = [\<lparr>date = ''2024-01-01'', hours = - 2\<rparr>, \<lparr>date = ''2024-01-02'', hours = 3\<rparr>,
                  \<lparr>date = ''2024-01-03'', hours = 3\<rparr>],
      remaining_hours = 4\<rparr>"

definition negative_hours_second :: PredictionRequest where
  "negative_hours_second =
     \<lparr>sessions = [\<lparr>date = ''2024-05-01'', hours = 1\<rparr>, \<lparr>date = ''2024-05-02'', hours = - 1 / 2\<rparr>,
                  \<lparr>date = ''2024-05-03'', hours = 3\<rparr>],
      remaining_hours = 2\<rparr>"




section \<open>Auxiliary facts\<close>

subsection \<open>Parsing, the first minimum and the running total\<close>

lemma make_datetime_error: "make_datetime y m d = Inl e \<Longrightarrow> e = ValueError"
  by (simp add: make_datetime_def split: if_splits)

lemma strptime_error: "strptime s = Inl e \<Longrightarrow> e = ValueError"
  by (auto simp: strptime_def split: option.splits prod.splits if_splits
      dest: make_datetime_error)

lemma parse_dates_error: "parse_dates ss = Inl e \<Longrightarrow> e = ValueError"
  by (induction ss) (auto split: sum.splits dest: strptime_error)


lemma parse_dates_fails:
  "\<exists>s\<in>set ss. strptime (date s) = Inl e \<Longrightarrow> parse_dates ss = Inl ValueError"
proof (induction ss)
  case Nil
  then show ?case by simp
next
  case (Cons s ss)
  show ?case
  proof (cases "strptime (date s)")
    case (Inl e')
    then show ?thesis by (auto dest: strptime_error)
  next
    case (Inr d)
    with Cons.prems have "\<exists>s\<in>set ss. strptime (date s) = Inl e" by auto
    then have "parse_dates ss = Inl ValueError" by (rule Cons.IH)
    with Inr show ?thesis by simp
  qed
qed

lemma parse_dates_succeeds:
  "\<forall>s\<in>set ss. \<exists>d. strptime (date s) = Inr d \<Longrightarrow> \<exists>ds. parse_dates ss = Inr ds"
  by (induction ss) (auto split: sum.splits)

lemma parse_dates_length: "parse_dates ss = Inr ds \<Longrightarrow> length ds = length ss"
  by (induction ss arbitrary: ds) (auto split: sum.splits)

lemma min_from_mem: "min_from m ds \<in> set (m # ds)"
  by (induction ds arbitrary: m) auto





lemma cumsum_from_last:
  "hs \<noteq> [] \<Longrightarrow> last (cumsum_from a hs) = a + sum_list hs"
proof (induction hs arbitrary: a)
  case Nil
  then show ?case by simp
next
  case (Cons h hs)
  then show ?case by (cases hs) (auto simp: algebra_simps)
qed

subsection \<open>The ordinal of a date is strictly monotone\<close>

lemma div_step:
  fixes p k :: int
  assumes "0 < k"
  shows "(p + 1) div k = p div k + (if (p + 1) mod k = 0 then 1 else 0)"
proof -
  define q r where "q = p div k" and "r = p mod k"
  have p: "p = k * q + r" and r: "0 \<le> r" "r < k"
    using assms by (simp_all add: q_def r_def)
  show ?thesis
  proof (cases "r + 1 = k")
    case True
    with p have "p + 1 = k * (q + 1)" by (simp add: algebra_simps)
    with assms show ?thesis by (simp add: q_def)
  next
    case False
    with r have lt: "r + 1 < k" by simp
    from p have eq: "p + 1 = k * q + (r + 1)" by simp
    have d: "(p + 1) div k = q"
      using eq r lt by (intro int_div_pos_eq) auto
    have m: "(p + 1) mod k = r + 1"
      using eq r lt by (intro int_mod_pos_eq) auto
    from d m r show ?thesis by (simp add: q_def)
  qed
qed

lemma mod_trans: 
  fixes y a b :: int
  assumes "a dvd b" "y mod b = 0" shows "y mod a = 0"
proof -
  from assms(2) have "b dvd y" by (simp add: mod_eq_0_iff_dvd)
  with assms(1) have "a dvd y" by (rule dvd_trans)
  then show ?thesis by (simp add: mod_eq_0_iff_dvd)
qed

lemma mod_400_100: "y mod 400 = 0 \<Longrightarrow> y mod 100 = 0" for y :: int
  by (rule mod_trans [of 100 400]) simp_all

lemma mod_100_4: "y mod 100 = 0 \<Longrightarrow> y mod 4 = 0" for y :: int
  by (rule mod_trans [of 4 100]) simp_all

lemma leap_count:
  fixes y :: int
  shows "(if y mod 4 = 0 then 1 else 0) - (if y mod 100 = 0 then 1 else 0)
           + (if y mod 400 = 0 then 1 else 0) = (if is_leap y then (1::int) else 0)"
proof (cases "y mod 400 = 0")
  case True
  then have "y mod 100 = 0" by (rule mod_400_100)
  moreover from this have "y mod 4 = 0" by (rule mod_100_4)
  ultimately show ?thesis using True by (simp add: is_leap_def)
next
  case n400: False
  show ?thesis
  proof (cases "y mod 100 = 0")
    case True
    then have "y mod 4 = 0" by (rule mod_100_4)
    with True n400 show ?thesis by (simp add: is_leap_def)
  next
    case False
    with n400 show ?thesis by (simp add: is_leap_def)
  qed
qed

lemma days_before_year_Suc:
  "days_before_year (y + 1) = days_before_year y + 365 + (if is_leap y then 1 else 0)"
proof -
  have d4: "y div 4 = (y - 1) div 4 + (if y mod 4 = 0 then 1 else 0)"
    using div_step [of 4 "y - 1"] by simp
  have d100: "y div 100 = (y - 1) div 100 + (if y mod 100 = 0 then 1 else 0)"
    using div_step [of 100 "y - 1"] by simp
  have d400: "y div 400 = (y - 1) div 400 + (if y mod 400 = 0 then 1 else 0)"
    using div_step [of 400 "y - 1"] by simp
  have "days_before_year (y + 1) = y * 365 + y div 4 - y div 100 + y div 400"
    by (simp add: days_before_year_def)
  also have "\<dots> = days_before_year y + 365
      + ((if y mod 4 = 0 then 1 else 0) - (if y mod 100 = 0 then 1 else 0)
           + (if y mod 400 = 0 then 1 else 0))"
    unfolding d4 d100 d400 by (simp add: days_before_year_def Let_def algebra_simps)
  finally show ?thesis by (simp only: leap_count)
qed

lemma month_cases:
  "1 \<le> (m::int) \<Longrightarrow> m \<le> 12 \<Longrightarrow>
   m = 1 \<or> m = 2 \<or> m = 3 \<or> m = 4 \<or> m = 5 \<or> m = 6 \<or> m = 7 \<or> m = 8 \<or> m = 9 \<or> m = 10
     \<or> m = 11 \<or> m = 12"
  by arith

lemma days_before_year_step: "days_before_year y \<le> days_before_year (y + 1)"
  by (simp add: days_before_year_Suc)

lemma days_before_year_mono: "y \<le> y' \<Longrightarrow> days_before_year y \<le> days_before_year y'"
proof (induction y' rule: int_ge_induct)
  case base
  show ?case by simp
next
  case (step i)
  then show ?case using days_before_year_step [of i] by linarith
qed

lemma days_before_month_end:
  assumes "1 \<le> m" "m \<le> 12"
  shows "days_before_month y m + days_in_month y m \<le> 365 + (if is_leap y then 1 else 0)"
  using month_cases [OF assms]
  by (auto simp: days_before_month_def days_in_month_def DAYS_BEFORE_MONTH_def DAYS_IN_MONTH_def)

lemma days_before_month_next:
  assumes "1 \<le> m" "m < 12"
  shows "days_before_month y (m + 1) = days_before_month y m + days_in_month y m"
proof -
  have "m = 1 \<or> m = 2 \<or> m = 3 \<or> m = 4 \<or> m = 5 \<or> m = 6 \<or> m = 7 \<or> m = 8 \<or> m = 9 \<or> m = 10
     \<or> m = 11" using assms by arith
  then show ?thesis
    by (auto simp: days_before_month_def days_in_month_def DAYS_BEFORE_MONTH_def
        DAYS_IN_MONTH_def)
qed

lemma days_in_month_pos: "0 < days_in_month y m"
  by (simp add: days_in_month_def DAYS_IN_MONTH_def)

lemma days_before_month_mono:
  assumes "1 \<le> m" "m \<le> m'" "m' \<le> 12"
  shows "days_before_month y m \<le> days_before_month y m'"
  using assms(2,1,3)
proof (induction m' rule: int_ge_induct)
  case base
  show ?case by simp
next
  case (step i)
  then have "days_before_month y (i + 1) = days_before_month y i + days_in_month y i"
    by (intro days_before_month_next) auto
  with step days_in_month_pos [of y i] show ?case by simp
qed

lemma days_before_month_nonneg: "0 \<le> days_before_month y m"
  by (simp add: days_before_month_def DAYS_BEFORE_MONTH_def)

lemma toordinal_mono:
  assumes a: "valid_date a" and b: "valid_date b" and less: "datetime_less a b"
  shows "toordinal a < toordinal b"
proof -
  from a have ma: "1 \<le> month a" "month a \<le> 12" and da: "day a \<le> days_in_month (year a) (month a)"
    by (simp_all add: valid_date_def)
  from b have mb: "1 \<le> month b" "month b \<le> 12" and db: "1 \<le> day b"
    by (simp_all add: valid_date_def)
  consider (y) "year a < year b"
    | (m) "year a = year b" "month a < month b"
    | (d) "year a = year b" "month a = month b" "day a < day b"
    using less by (auto simp: datetime_less_def)
  then show ?thesis
  proof cases
    case y
    have "toordinal a \<le> days_before_year (year a) + (365 + (if is_leap (year a) then 1 else 0))"
      using days_before_month_end [OF ma, of "year a"] da by (simp add: toordinal_def)
    also have "\<dots> = days_before_year (year a + 1)"
      by (simp add: days_before_year_Suc)
    also have "\<dots> \<le> days_before_year (year b)"
      using y by (intro days_before_year_mono) simp
    also have "\<dots> < toordinal b"
      using days_before_month_nonneg [of "year b" "month b"] db by (simp add: toordinal_def)
    finally show ?thesis .
  next
    case m
    have "days_before_month (year a) (month a) + days_in_month (year a) (month a)
        = days_before_month (year a) (month a + 1)"
      using ma m mb by (intro days_before_month_next [symmetric]) auto
    also have "\<dots> \<le> days_before_month (year a) (month b)"
      using ma m mb by (intro days_before_month_mono) auto
    finally show ?thesis using da db m by (simp add: toordinal_def)
  next
    case d
    then show ?thesis by (simp add: toordinal_def)
  qed
qed



lemma make_datetime_valid: "make_datetime y m d = Inr dt \<Longrightarrow> valid_date dt"
  by (auto simp: make_datetime_def valid_date_def split: if_splits)

lemma strptime_valid: "strptime s = Inr d \<Longrightarrow> valid_date d"
  by (auto simp: strptime_def split: option.splits prod.splits if_splits
      dest: make_datetime_valid)

subsection \<open>The fit\<close>






lemma dot_self: "dot vs vs = sum_list (map (\<lambda>v. v\<^sup>2) vs)"
  by (induction vs) (simp_all add: dot_def power2_eq_square)

lemma sum_squares_nonneg: "0 \<le> sum_list (map (\<lambda>v. v\<^sup>2) vs)" for vs :: "real list"
  by (induction vs) simp_all

lemma dot_self_nonneg: "0 \<le> dot vs vs"
  by (simp add: dot_self sum_squares_nonneg)


lemma dot_centre: "dot (centre xs) (centre ys)
    = sum_list (map (\<lambda>(x, y). (x - average xs) * (y - average ys)) (zip xs ys))"
proof -
  have "zip (map f xs) (map g ys) = map (\<lambda>(x, y). (f x, g y)) (zip xs ys)" for f g :: "real \<Rightarrow> real"
    by (simp add: zip_map_map)
  then show ?thesis
    by (simp add: dot_def centre_def comp_def case_prod_unfold)
qed






text \<open>
  The fitted line minimises the sum of squared residuals over all lines, also when the
  day offsets are all equal and the minimiser is not unique.
\<close>

lemma sum_list_zip_nth:
  assumes "length xs = length ys"
  shows "sum_list (map f (zip xs ys)) = (\<Sum>i<length xs. f (xs ! i, ys ! i))"
proof -
  have "sum_list (map f (zip xs ys)) = (\<Sum>i = 0..<length xs. map f (zip xs ys) ! i)"
    using assms by (simp add: sum_list_sum_nth)
  also have "\<dots> = (\<Sum>i = 0..<length xs. f (xs ! i, ys ! i))"
    using assms by (intro sum.cong) simp_all
  finally show ?thesis by (simp add: atLeast0LessThan)
qed

lemma sum_list_nth: "sum_list vs = (\<Sum>i<length vs. vs ! i)" for vs :: "real list"
  by (simp add: sum_list_sum_nth atLeast0LessThan)

lemma sum_centred:
  assumes "vs \<noteq> []"
  shows "(\<Sum>i<length vs. vs ! i - average vs) = 0"
proof -
  have "(\<Sum>i<length vs. vs ! i - average vs) = sum_list vs - real (length vs) * average vs"
    by (simp add: sum_subtractf sum_list_nth)
  also have "\<dots> = 0" using assms by (simp add: average_def)
  finally show ?thesis .
qed

lemma sum_sq_shift:
  fixes u :: "nat \<Rightarrow> real"
  assumes "(\<Sum>i<n. u i) = 0"
  shows "(\<Sum>i<n. (u i + c)\<^sup>2) = (\<Sum>i<n. (u i)\<^sup>2) + real n * c\<^sup>2"
proof -
  have "(\<Sum>i<n. (u i + c)\<^sup>2) = (\<Sum>i<n. (u i)\<^sup>2 + (2 * c) * u i + c\<^sup>2)"
    by (intro sum.cong refl) (simp add: power2_sum algebra_simps)
  also have "\<dots> = (\<Sum>i<n. (u i)\<^sup>2) + (2 * c) * (\<Sum>i<n. u i) + real n * c\<^sup>2"
    by (simp add: sum.distrib sum_distrib_left)
  finally show ?thesis using assms by simp
qed

lemma sum_sq_line:
  fixes v w :: "nat \<Rightarrow> real"
  shows "(\<Sum>i<n. (v i - a * w i)\<^sup>2)
    = (\<Sum>i<n. (v i)\<^sup>2) - 2 * a * (\<Sum>i<n. w i * v i) + a\<^sup>2 * (\<Sum>i<n. (w i)\<^sup>2)"
proof -
  have "(\<Sum>i<n. (v i - a * w i)\<^sup>2)
      = (\<Sum>i<n. (v i)\<^sup>2 - (2 * a) * (w i * v i) + a\<^sup>2 * (w i)\<^sup>2)"
    by (intro sum.cong refl) (simp add: power2_diff algebra_simps)
  also have "\<dots> = (\<Sum>i<n. (v i)\<^sup>2) - (2 * a) * (\<Sum>i<n. w i * v i) + a\<^sup>2 * (\<Sum>i<n. (w i)\<^sup>2)"
    by (simp add: sum.distrib sum_subtractf sum_distrib_left)
  finally show ?thesis by simp
qed

lemma fit_least_squares:
  assumes len: "length xs = length ys" and ne: "xs \<noteq> []"
  shows "ssr xs ys (coef (fit xs ys)) (intercept (fit xs ys)) \<le> ssr xs ys a b"
proof -
  define n where "n = length xs"
  define mx my where "mx = average xs" and "my = average ys"
  define w v where "w = (\<lambda>i. xs ! i - mx)" and "v = (\<lambda>i. ys ! i - my)"
  define Sxx Sxy Syy where "Sxx = (\<Sum>i<n. (w i)\<^sup>2)" and "Sxy = (\<Sum>i<n. w i * v i)"
    and "Syy = (\<Sum>i<n. (v i)\<^sup>2)"
  define g where "g = (\<lambda>a. Syy - 2 * a * Sxy + a\<^sup>2 * Sxx)"
  from len ne have ney: "ys \<noteq> []" by auto
  have w0: "(\<Sum>i<n. w i) = 0"
    using sum_centred [OF ne] by (simp add: w_def mx_def n_def)
  have v0: "(\<Sum>i<n. v i) = 0"
    using sum_centred [OF ney] len by (simp add: v_def my_def n_def)
  have u0: "(\<Sum>i<n. v i - a' * w i) = 0" for a'
    using w0 v0 by (simp add: sum_subtractf sum_distrib_left [symmetric])
  have ssr: "ssr xs ys a' b' = g a' + real n * (my - a' * mx - b')\<^sup>2" for a' b'
  proof -
    have "ssr xs ys a' b' = (\<Sum>i<n. (ys ! i - (a' * xs ! i + b'))\<^sup>2)"
      using len by (simp add: ssr_def sum_list_zip_nth n_def)
    also have "\<dots> = (\<Sum>i<n. ((v i - a' * w i) + (my - a' * mx - b'))\<^sup>2)"
      by (intro sum.cong refl) (simp add: v_def w_def algebra_simps)
    also have "\<dots> = (\<Sum>i<n. (v i - a' * w i)\<^sup>2) + real n * (my - a' * mx - b')\<^sup>2"
      using u0 by (rule sum_sq_shift)
    also have "(\<Sum>i<n. (v i - a' * w i)\<^sup>2) = g a'"
      by (simp add: sum_sq_line g_def Sxx_def Sxy_def Syy_def)
    finally show ?thesis .
  qed
  have dxx: "dot (centre xs) (centre xs) = Sxx"
    by (simp add: dot_centre sum_list_zip_nth Sxx_def w_def mx_def n_def power2_eq_square)
  have dxy: "dot (centre xs) (centre ys) = Sxy"
    using len by (simp add: dot_centre sum_list_zip_nth Sxy_def w_def v_def mx_def my_def n_def)
  define a0 where "a0 = coef (fit xs ys)"
  have a0: "a0 = (if Sxx = 0 then 0 else Sxy / Sxx)"
    by (simp add: a0_def fit_def Let_def lstsq_def dxx dxy)
  have b0: "intercept (fit xs ys) = my - mx * a0"
    by (simp add: a0_def fit_def Let_def my_def mx_def)
  have best: "ssr xs ys a0 (intercept (fit xs ys)) = g a0"
    by (simp add: ssr b0 algebra_simps)
  have "g a0 \<le> g a"
  proof (cases "Sxx = 0")
    case True
    have "\<forall>i\<in>{..<n}. (w i)\<^sup>2 = 0"
      using True unfolding Sxx_def by (subst (asm) sum_nonneg_eq_0_iff) simp_all
    then have "Sxy = 0" by (simp add: Sxy_def)
    with True show ?thesis by (simp add: g_def)
  next
    case False
    have "0 \<le> Sxx" by (simp add: Sxx_def sum_nonneg)
    with False have pos: "0 < Sxx" by simp
    from False a0 have "Sxy = a0 * Sxx" by simp
    then have "g a - g a0 = Sxx * (a - a0)\<^sup>2"
      by (simp add: g_def power2_eq_square algebra_simps)
    moreover have "0 \<le> Sxx * (a - a0)\<^sup>2" using pos by simp
    ultimately show ?thesis by linarith
  qed
  also have "\<dots> \<le> g a + real n * (my - a * mx - b)\<^sup>2" by simp
  finally have "ssr xs ys a0 (intercept (fit xs ys)) \<le> ssr xs ys a b"
    unfolding best ssr [of a b] .
  then show ?thesis by (simp only: a0_def)
qed

subsection \<open>The preparation\<close>


lemma prepare_data_fails:
  assumes "\<exists>s\<in>set (sessions data). strptime (date s) = Inl e"
  shows "prepare_data data = Inl ValueError"
  using parse_dates_fails [OF assms] by (simp add: prepare_data_def)

subsection \<open>The date addition and the truncation\<close>

lemma parse_dates_valid: "parse_dates ss = Inr ds \<Longrightarrow> \<forall>d\<in>set ds. valid_date d"
proof (induction ss arbitrary: ds)
  case Nil
  then show ?case by simp
next
  case (Cons s ss)
  then show ?case by (auto split: sum.splits dest: strptime_valid)
qed

lemma toordinal_range:
  assumes "valid_date d"
  shows "0 < toordinal d \<and> toordinal d \<le> MAXORDINAL"
proof -
  let ?lo = "\<lparr>year = 1, month = 1, day = 1\<rparr>"
  let ?hi = "\<lparr>year = 9999, month = 12, day = 31\<rparr>"
  have lo: "valid_date ?lo" and hi: "valid_date ?hi"
    by (simp_all add: valid_date_def MINYEAR_def MAXYEAR_def days_in_month_def DAYS_IN_MONTH_def)
  have olo: "toordinal ?lo = 1"
    by (simp add: toordinal_def days_before_year_def days_before_month_def DAYS_BEFORE_MONTH_def)
  have ohi: "toordinal ?hi = MAXORDINAL"
    by (simp add: toordinal_def days_before_year_def days_before_month_def DAYS_BEFORE_MONTH_def
        MAXORDINAL_def is_leap_def)
  have "d = ?lo \<or> datetime_less ?lo d"
    using assms by (cases d) (auto simp: valid_date_def datetime_less_def MINYEAR_def)
  then have "1 \<le> toordinal d"
    using toordinal_mono [OF lo assms] olo by auto
  moreover have "days_in_month (year d) (month d) \<le> 31"
    by (simp add: days_in_month_def DAYS_IN_MONTH_def)
  then have "d = ?hi \<or> datetime_less d ?hi"
    using assms by (cases d) (auto simp: valid_date_def datetime_less_def MAXYEAR_def)
  then have "toordinal d \<le> MAXORDINAL"
    using toordinal_mono [OF assms hi] ohi by auto
  ultimately show ?thesis by simp
qed

lemma datetime_add_timedelta:
  assumes "valid_date d"
  shows "(case timedelta k of Inl e \<Rightarrow> Inl e | Inr delta \<Rightarrow> datetime_add d delta)
    = (if 0 < toordinal d + k \<and> toordinal d + k \<le> MAXORDINAL
       then Inr (fromordinal (toordinal d + k)) else Inl OverflowError)"
proof (cases "\<bar>k\<bar> \<le> 999999999")
  case True
  then show ?thesis by (simp add: timedelta_def datetime_add_def Let_def)
next
  case False
  with toordinal_range [OF assms]
  have "\<not> (0 < toordinal d + k \<and> toordinal d + k \<le> MAXORDINAL)"
    by (auto simp: MAXORDINAL_def)
  with False show ?thesis by (simp add: timedelta_def)
qed

lemma py_int_truncates:
  "real_of_int (py_int r) = sgn r * real_of_int \<lfloor>\<bar>r\<bar>\<rfloor>
   \<and> \<bar>real_of_int (py_int r)\<bar> \<le> \<bar>r\<bar>
   \<and> \<bar>r - real_of_int (py_int r)\<bar> < 1"
proof (cases "0 \<le> r")
  case True
  then have "py_int r = \<lfloor>r\<rfloor>" by (simp add: py_int_def)
  moreover have "sgn r * real_of_int \<lfloor>r\<rfloor> = real_of_int \<lfloor>r\<rfloor>"
    using True by (cases "r = 0") (simp_all add: sgn_if)
  ultimately show ?thesis using True by (simp; linarith)
next
  case False
  then have "py_int r = \<lceil>r\<rceil>" by (simp add: py_int_def)
  moreover have "\<lceil>r\<rceil> = - \<lfloor>- r\<rfloor>" by (simp add: ceiling_def)
  ultimately show ?thesis using False by (simp add: sgn_if; linarith)
qed

subsection \<open>The minimum of the dates and the day offsets\<close>






subsection \<open>The handler over any binary64 arithmetic\<close>

lemma binary64_limit_code [code]:
  "binary64_limit =
     179769313486231590772930519078902473361797697894230657273430081157732675805500963132708477322407536021120113879871393357658789768814416622492847430639474124377767893424865485276302219601246094119453082952085005768838150682342462881473913110540827237163350510684586298239947245938479716304835356329624224137216"
  by (simp add: binary64_limit_def)

lemma prepare_data_f_parsed:
  assumes "parse_dates (sessions data) = Inr (d # ds)"
  shows "prepare_data_f num data =
    Inr \<lparr>start_date_f = min_from d ds,
         days_since_start_f = map (\<lambda>x. days_between x (min_from d ds)) (d # ds),
         cumulative_hours_f =
           cumsum_f (fadd num) (map (\<lambda>s. Finite (hours s)) (sessions data))\<rparr>"
  using assms by (simp add: prepare_data_f_def min_dates_def)

lemma prepare_data_f_succeeds:
  assumes "sessions data \<noteq> []"
    and "\<forall>s\<in>set (sessions data). \<exists>d. strptime (date s) = Inr d"
  shows "\<exists>p. prepare_data_f num data = Inr p
      \<and> valid_date (start_date_f p)
      \<and> cumulative_hours_f p
          = cumsum_f (fadd num) (map (\<lambda>s. Finite (hours s)) (sessions data))"
proof -
  from assms(2) obtain dates where dates: "parse_dates (sessions data) = Inr dates"
    using parse_dates_succeeds by blast
  then have len: "length dates = length (sessions data)" by (rule parse_dates_length)
  with assms(1) obtain d ds where d: "dates = d # ds" by (cases dates) auto
  have "min_from d ds \<in> set dates" using min_from_mem [of d ds] by (simp add: d)
  with parse_dates_valid [OF dates] have "valid_date (min_from d ds)" by blast
  with dates d show ?thesis by (simp add: prepare_data_f_parsed)
qed

lemma prepare_data_f_fails:
  assumes "\<exists>s\<in>set (sessions data). strptime (date s) = Inl e"
  shows "prepare_data_f num data = Inl ValueError"
  using parse_dates_fails [OF assms] by (simp add: prepare_data_f_def)

lemma prepare_data_f_start_valid:
  assumes "prepare_data_f num data = Inr p"
  shows "valid_date (start_date_f p)"
proof -
  from assms obtain dates where dates: "parse_dates (sessions data) = Inr dates"
    by (auto simp: prepare_data_f_def split: sum.splits)
  with assms obtain d ds where d: "dates = d # ds" and "start_date_f p = min_from d ds"
    by (cases dates) (auto simp: prepare_data_f_def min_dates_def)
  with min_from_mem [of d ds] have "start_date_f p \<in> set dates" by simp
  with parse_dates_valid [OF dates] show ?thesis by blast
qed


lemma predict_future_positive:
  assumes valid: "valid_date (start_date_f p)"
    and pos: "\<not> float_le_zero velocity"
  shows "predict_future num data p (velocity, icpt) =
    (case fdiv num
            (fsub num (fadd num (last (cumulative_hours_f p)) (Finite (remaining_hours data)))
               icpt)
            velocity of
       Finite r \<Rightarrow>
         if 0 < toordinal (start_date_f p) + py_int r
            \<and> toordinal (start_date_f p) + py_int r \<le> MAXORDINAL
         then Inr (Body_success
                (strftime (fromordinal (toordinal (start_date_f p) + py_int r)))
                (fround2 num velocity))
         else Inl OverflowError
     | PosInf \<Rightarrow> Inl OverflowError
     | NegInf \<Rightarrow> Inl OverflowError
     | NaN \<Rightarrow> Inl ValueError)"
proof -
  let ?dn = "fdiv num
            (fsub num (fadd num (last (cumulative_hours_f p)) (Finite (remaining_hours data)))
               icpt)
            velocity"
  have unfold: "predict_future num data p (velocity, icpt) =
      (case float_int ?dn of Inl e \<Rightarrow> Inl e
       | Inr k \<Rightarrow>
         (case (case timedelta k of Inl e \<Rightarrow> Inl e
                | Inr delta \<Rightarrow> datetime_add (start_date_f p) delta) of
            Inl e \<Rightarrow> Inl e
          | Inr finish_date \<Rightarrow>
              Inr (Body_success (strftime finish_date) (fround2 num velocity))))"
    using pos by (simp add: predict_future_def Let_def split: sum.splits)
  show ?thesis
    unfolding unfold
    by (cases ?dn) (simp_all add: datetime_add_timedelta [OF valid])
qed

lemma predict_completion_f_fit:
  assumes "3 \<le> length (sessions data)" "prepare_data_f num data = Inr p"
  shows "predict_completion_f num data =
    (case ffit num (days_since_start_f p) (cumulative_hours_f p) of
       Inl e \<Rightarrow> Inl e
     | Inr model \<Rightarrow> predict_future num data p model)"
  using assms by (simp add: predict_completion_f_def)

text \<open>
  The guard of line 32 and the parsing of line 37 come before any arithmetic, so what
  they decide is the same for every arithmetic.
\<close>

lemma predict_completion_f_insufficient:
  "length (sessions data) < 3 \<Longrightarrow> predict_completion_f num data = Inr Body_insufficient_data"
  by (simp add: predict_completion_f_def)

lemma predict_completion_f_bad_date:
  assumes "3 \<le> length (sessions data)"
    and "\<exists>s\<in>set (sessions data). strptime (date s) = Inl e"
  shows "predict_completion_f num data = Inl ValueError"
  using assms(1) prepare_data_f_fails [OF assms(2)] by (simp add: predict_completion_f_def)

lemma response_status_cases: "response_status r = 200 \<or> response_status r = 500"
  by (induction r rule: response_status.induct) simp_all

lemma post_predict_status_not_4xx:
  "\<not> (400 \<le> post_predict_status num data \<and> post_predict_status num data < 500)"
  using response_status_cases [of "predict_completion_f num data"]
  by (auto simp: post_predict_status_def)

section \<open>Properties\<close>

subsection \<open>Fewer than three sessions\<close>

text \<open>
  C3. A request with fewer than three sessions gets exactly the insufficient-data body,
  whatever the sessions and the remaining hours are; nothing is parsed, summed or
  fitted, so a date that does not parse raises nothing.
\<close>

theorem C3_insufficient_data:
  "length (sessions data) < 3 \<Longrightarrow> predict_completion data = Inr InsufficientData"
  by (simp add: predict_completion_def)

theorem C3_insufficient_data_witness:
  "length (sessions \<lparr>sessions = [\<lparr>date = ''yesterday'', hours = - 1\<rparr>,
        \<lparr>date = ''2024-02-30'', hours = 5\<rparr>], remaining_hours = - 7\<rparr>) < 3
   \<and> predict_completion \<lparr>sessions = [\<lparr>date = ''yesterday'', hours = - 1\<rparr>,
        \<lparr>date = ''2024-02-30'', hours = 5\<rparr>], remaining_hours = - 7\<rparr> = Inr InsufficientData"
  using C3_insufficient_data [of "\<lparr>sessions = [\<lparr>date = ''yesterday'', hours = - 1\<rparr>,
        \<lparr>date = ''2024-02-30'', hours = 5\<rparr>], remaining_hours = - 7\<rparr>"]
  by simp

subsection \<open>The example of the specification\<close>

text \<open>
  C2. For the sessions ("2024-01-01", 2), ("2024-01-02", 2), ("2024-01-03", 2) and
  4 remaining hours the running totals are 2, 4, 6, the day offsets 0, 1, 2, the fitted
  slope and intercept are both 2, the target total is 10, four days are needed, and the
  handler returns the success body with date "2024-01-05" and velocity 2.
\<close>

theorem C2_spec_example:
  "cumsum (map hours (sessions spec_example)) = [2, 4, 6]
   \<and> prepare_data spec_example =
       Inr \<lparr>start_date = \<lparr>year = 2024, month = 1, day = 1\<rparr>,
            days_since_start = [0, 1, 2], cumulative_hours = [2, 4, 6]\<rparr>
   \<and> fit [0, 1, 2] [2, 4, 6] = \<lparr>coef = 2, intercept = 2\<rparr>
   \<and> last [2, 4, 6] + remaining_hours spec_example = 10
   \<and> py_int ((10 - 2) / 2) = 4
   \<and> predict_completion spec_example = Inr (Success ''2024-01-05'' 2)
   \<and> status_of (Success ''2024-01-05'' 2) = ''success''"
  by code_simp

subsection \<open>A date that does not parse\<close>

text \<open>
  C7, as the specification states it, fails: a request with three sessions, one of them
  dated "2024-02-30", is answered with status 500, which is not a client error.
\<close>

theorem C7_client_error_counterexample:
  "3 \<le> length (sessions bad_date_example)
   \<and> strptime (date (sessions bad_date_example ! 1)) = Inl ValueError
   \<and> status_code (post_predict bad_date_example) = 500
   \<and> \<not> is_client_error (post_predict bad_date_example)"
  by code_simp

text \<open>
  C7, amended. When a request has three or more sessions and some date does not parse,
  the handler raises \<^verbatim>\<open>ValueError\<close>: no session is skipped and no body is returned.
  The handler does not catch the exception, so the route answers with status 500, a
  server error and not a client error.
\<close>

theorem C7_bad_date_raises:
  assumes "3 \<le> length (sessions data)"
    and "\<exists>s\<in>set (sessions data). strptime (date s) = Inl e"
  shows "predict_completion data = Inl ValueError
    \<and> post_predict data = HTTP_Internal_Server_Error
    \<and> \<not> is_client_error (post_predict data)"
proof -
  have "predict_completion data = Inl ValueError"
    using assms(1) prepare_data_fails [OF assms(2)] by (simp add: predict_completion_def)
  then show ?thesis by (simp add: post_predict_def is_client_error_def)
qed

theorem C7_bad_date_raises_witness:
  "strptime ''2024-02-30'' = Inl ValueError
   \<and> predict_completion bad_date_example = Inl ValueError
   \<and> post_predict bad_date_example = HTTP_Internal_Server_Error"
proof -
  have e: "strptime ''2024-02-30'' = Inl ValueError" by code_simp
  have l: "3 \<le> length (sessions bad_date_example)"
    by (simp add: bad_date_example_def)
  have "\<exists>s\<in>set (sessions bad_date_example). strptime (date s) = Inl ValueError"
    using e by (simp add: bad_date_example_def)
  from C7_bad_date_raises [OF l this] e show ?thesis by simp
qed

subsection \<open>All sessions on one day\<close>




subsection \<open>Truncation of the days needed\<close>

text \<open>
  C5, as the specification states it, fails: with a positive velocity the projected date
  can lie outside the dates that \<^verbatim>\<open>datetime\<close> represents, and then the addition
  raises \<^verbatim>\<open>OverflowError\<close>. It does so for a negative number of days from
  0001-01-01 and for a positive number of days from 9999-12-29. Both requests are
  evaluated in exact arithmetic; rounding moves the days needed by less than one day,
  which leaves both projected dates outside the range.
\<close>

theorem C5_out_of_range_counterexample:
  "coef (fit [0, 1, 2] [2, 4, 6]) = 2
   \<and> prepare_data first_days_example =
       Inr \<lparr>start_date = \<lparr>year = 1, month = 1, day = 1\<rparr>,
            days_since_start = [0, 1, 2], cumulative_hours = [2, 4, 6]\<rparr>
   \<and> py_int ((6 + remaining_hours first_days_example - intercept (fit [0, 1, 2] [2, 4, 6]))
              / coef (fit [0, 1, 2] [2, 4, 6])) = - 3
   \<and> predict_completion first_days_example = Inl OverflowError
   \<and> coef (fit [0, 1, 2] [1, 2, 3]) = 1
   \<and> prepare_data last_days_example =
       Inr \<lparr>start_date = \<lparr>year = 9999, month = 12, day = 29\<rparr>,
            days_since_start = [0, 1, 2], cumulative_hours = [1, 2, 3]\<rparr>
   \<and> py_int ((3 + remaining_hours last_days_example - intercept (fit [0, 1, 2] [1, 2, 3]))
              / coef (fit [0, 1, 2] [1, 2, 3])) = 4
   \<and> predict_completion last_days_example = Inl OverflowError"
  by code_simp

text \<open>
  C5, amended. Whenever the fit returns a finite, strictly positive velocity, the days
  needed are (target total - intercept) / velocity as the binary64 operations compute
  it. When that value is finite, \<^verbatim>\<open>int\<close> discards its fraction (rounds toward zero,
  for positive and for negative values alike), and when the start date plus that many
  days is a date from 0001-01-01 to 9999-12-31 the handler returns the success body with
  that date; otherwise it raises \<^verbatim>\<open>OverflowError\<close>. An infinite value raises
  \<^verbatim>\<open>OverflowError\<close> and NaN raises \<^verbatim>\<open>ValueError\<close>. This holds for every
  arithmetic \<open>num\<close>.
\<close>

theorem C5_days_truncated:
  assumes "3 \<le> length (sessions data)"
    and "prepare_data_f num data = Inr p"
    and "ffit num (days_since_start_f p) (cumulative_hours_f p) = Inr (Finite velocity, icpt)"
    and "0 < velocity"
    and "days_needed =
           fdiv num
             (fsub num (fadd num (last (cumulative_hours_f p)) (Finite (remaining_hours data)))
                icpt)
             (Finite velocity)"
  shows "predict_completion_f num data =
      (case days_needed of
         Finite r \<Rightarrow>
           if 0 < toordinal (start_date_f p) + py_int r
              \<and> toordinal (start_date_f p) + py_int r \<le> MAXORDINAL
           then Inr (Body_success
                  (strftime (fromordinal (toordinal (start_date_f p) + py_int r)))
                  (fround2 num (Finite velocity)))
           else Inl OverflowError
       | PosInf \<Rightarrow> Inl OverflowError
       | NegInf \<Rightarrow> Inl OverflowError
       | NaN \<Rightarrow> Inl ValueError)
    \<and> (\<forall>r. real_of_int (py_int r) = sgn r * real_of_int \<lfloor>\<bar>r\<bar>\<rfloor>
           \<and> \<bar>r - real_of_int (py_int r)\<bar> < 1)"
proof -
  have pos: "\<not> float_le_zero (Finite velocity)"
    using assms(4) by simp
  have "predict_completion_f num data = predict_future num data p (Finite velocity, icpt)"
    using predict_completion_f_fit [OF assms(1,2)] assms(3) by simp
  also note predict_future_positive [OF prepare_data_f_start_valid [OF assms(2)] pos]
  finally have "predict_completion_f num data =
      (case days_needed of
         Finite r \<Rightarrow>
           if 0 < toordinal (start_date_f p) + py_int r
              \<and> toordinal (start_date_f p) + py_int r \<le> MAXORDINAL
           then Inr (Body_success
                  (strftime (fromordinal (toordinal (start_date_f p) + py_int r)))
                  (fround2 num (Finite velocity)))
           else Inl OverflowError
       | PosInf \<Rightarrow> Inl OverflowError
       | NegInf \<Rightarrow> Inl OverflowError
       | NaN \<Rightarrow> Inl ValueError)"
    unfolding assms(5) .
  moreover have "\<forall>r. real_of_int (py_int r) = sgn r * real_of_int \<lfloor>\<bar>r\<bar>\<rfloor>
           \<and> \<bar>r - real_of_int (py_int r)\<bar> < 1"
    using py_int_truncates by blast
  ultimately show ?thesis by (rule conjI)
qed

theorem C5_days_truncated_witness:
  "prepare_data_f ideal_numerics negative_days_example =
     Inr \<lparr>start_date_f = \<lparr>year = 2024, month = 1, day = 10\<rparr>,
          days_since_start_f = [0, 1, 2],
          cumulative_hours_f = [Finite 1, Finite 2, Finite 3]\<rparr>
   \<and> ffit ideal_numerics [0, 1, 2] [Finite 1, Finite 2, Finite 3] = Inr (Finite 1, Finite 1)
   \<and> fdiv ideal_numerics
        (fsub ideal_numerics (fadd ideal_numerics (Finite 3) (Finite (- 11 / 2))) (Finite 1))
        (Finite 1) = Finite (- 7 / 2)
   \<and> py_int (- 7 / 2) = - 3
   \<and> predict_completion_f ideal_numerics negative_days_example
       = Inr (Body_success ''2024-01-07'' (Finite 1))"
proof -
  let ?p = "\<lparr>start_date_f = \<lparr>year = 2024, month = 1, day = 10\<rparr>,
          days_since_start_f = [0, 1, 2],
          cumulative_hours_f = [Finite 1, Finite 2, Finite 3]\<rparr>"
  have l: "3 \<le> length (sessions negative_days_example)"
    by (simp add: negative_days_example_def)
  have p: "prepare_data_f ideal_numerics negative_days_example = Inr ?p"
    by code_simp
  have f0: "ffit ideal_numerics [0, 1, 2] [Finite 1, Finite 2, Finite 3]
      = Inr (Finite 1, Finite 1)"
    by code_simp
  then have f: "ffit ideal_numerics (days_since_start_f ?p) (cumulative_hours_f ?p)
      = Inr (Finite 1, Finite 1)"
    by simp
  have d0: "fdiv ideal_numerics
        (fsub ideal_numerics (fadd ideal_numerics (Finite 3) (Finite (- 11 / 2))) (Finite 1))
        (Finite 1) = Finite (- 7 / 2)"
    by code_simp
  have d: "Finite (- 7 / 2) =
           fdiv ideal_numerics
             (fsub ideal_numerics
                (fadd ideal_numerics (last (cumulative_hours_f ?p))
                   (Finite (remaining_hours negative_days_example)))
                (Finite 1))
             (Finite 1)"
    using d0 by (simp add: negative_days_example_def)
  have k: "py_int (- 7 / 2) = - 3"
    by code_simp
  have "predict_completion_f ideal_numerics negative_days_example =
      (case Finite (- 7 / 2) of
         Finite r \<Rightarrow>
           if 0 < toordinal (start_date_f ?p) + py_int r
              \<and> toordinal (start_date_f ?p) + py_int r \<le> MAXORDINAL
           then Inr (Body_success
                  (strftime (fromordinal (toordinal (start_date_f ?p) + py_int r)))
                  (fround2 ideal_numerics (Finite 1)))
           else Inl OverflowError
       | PosInf \<Rightarrow> Inl OverflowError
       | NegInf \<Rightarrow> Inl OverflowError
       | NaN \<Rightarrow> Inl ValueError)"
    using C5_days_truncated [OF l p f _ d] by simp
  also have "\<dots> = Inr (Body_success ''2024-01-07'' (Finite 1))"
    by code_simp
  finally show ?thesis using p f0 d0 k by simp
qed

subsection \<open>Negative remaining hours\<close>

text \<open>
  C10, as stated, fails: with negative remaining hours and a positive velocity the
  projected date can fall before 0001-01-01, and the handler raises
  \<^verbatim>\<open>OverflowError\<close>.
\<close>

theorem C10_overflow_counterexample:
  "remaining_hours negative_remaining_overflow < 0
   \<and> prepare_data negative_remaining_overflow =
       Inr \<lparr>start_date = \<lparr>year = 1, month = 1, day = 1\<rparr>,
            days_since_start = [0, 1, 2], cumulative_hours = [1, 2, 3]\<rparr>
   \<and> fit [0, 1, 2] [1, 2, 3] = \<lparr>coef = 1, intercept = 1\<rparr>
   \<and> predict_completion negative_remaining_overflow = Inl OverflowError"
  by code_simp

text \<open>
  C10, amended. Negative remaining hours are not rejected: for a request with three or
  more sessions whose dates parse, the preparation succeeds and the handler calls the
  fit. The target total is the binary64 sum of the current total and the remaining
  hours. When the fit returns a finite, strictly positive velocity, the handler returns
  the success body if the days needed are finite and the projected date is from
  0001-01-01 to 9999-12-31, and raises \<^verbatim>\<open>OverflowError\<close> (for NaN,
  \<^verbatim>\<open>ValueError\<close>) otherwise; an exception raised by the fit leaves the handler.
  This holds for every arithmetic \<open>num\<close>.
\<close>

theorem C10_negative_remaining_runs:
  assumes "3 \<le> length (sessions data)"
    and "\<forall>s\<in>set (sessions data). \<exists>d. strptime (date s) = Inr d"
    and "remaining_hours data < 0"
  shows "\<exists>p. prepare_data_f num data = Inr p
    \<and> (\<forall>e. ffit num (days_since_start_f p) (cumulative_hours_f p) = Inl e
          \<longrightarrow> predict_completion_f num data = Inl e)
    \<and> (\<forall>velocity icpt.
          ffit num (days_since_start_f p) (cumulative_hours_f p) = Inr (Finite velocity, icpt)
          \<longrightarrow> 0 < velocity
          \<longrightarrow> predict_completion_f num data =
              (case fdiv num
                      (fsub num
                         (fadd num (last (cumulative_hours_f p))
                            (Finite (remaining_hours data)))
                         icpt)
                      (Finite velocity) of
                 Finite r \<Rightarrow>
                   if 0 < toordinal (start_date_f p) + py_int r
                      \<and> toordinal (start_date_f p) + py_int r \<le> MAXORDINAL
                   then Inr (Body_success
                          (strftime (fromordinal (toordinal (start_date_f p) + py_int r)))
                          (fround2 num (Finite velocity)))
                   else Inl OverflowError
               | PosInf \<Rightarrow> Inl OverflowError
               | NegInf \<Rightarrow> Inl OverflowError
               | NaN \<Rightarrow> Inl ValueError))"
proof -
  from assms(1) have ne: "sessions data \<noteq> []" by auto
  from prepare_data_f_succeeds [OF ne assms(2)] obtain p
    where p: "prepare_data_f num data = Inr p" and v: "valid_date (start_date_f p)"
    by blast
  note fit = predict_completion_f_fit [OF assms(1) p]
  have a: "\<forall>e. ffit num (days_since_start_f p) (cumulative_hours_f p) = Inl e
          \<longrightarrow> predict_completion_f num data = Inl e"
    by (simp add: fit)
  have b: "\<forall>velocity icpt.
          ffit num (days_since_start_f p) (cumulative_hours_f p) = Inr (Finite velocity, icpt)
          \<longrightarrow> 0 < velocity
          \<longrightarrow> predict_completion_f num data =
              (case fdiv num
                      (fsub num
                         (fadd num (last (cumulative_hours_f p))
                            (Finite (remaining_hours data)))
                         icpt)
                      (Finite velocity) of
                 Finite r \<Rightarrow>
                   if 0 < toordinal (start_date_f p) + py_int r
                      \<and> toordinal (start_date_f p) + py_int r \<le> MAXORDINAL
                   then Inr (Body_success
                          (strftime (fromordinal (toordinal (start_date_f p) + py_int r)))
                          (fround2 num (Finite velocity)))
                   else Inl OverflowError
               | PosInf \<Rightarrow> Inl OverflowError
               | NegInf \<Rightarrow> Inl OverflowError
               | NaN \<Rightarrow> Inl ValueError)"
  proof (intro allI impI)
    fix velocity icpt
    assume f: "ffit num (days_since_start_f p) (cumulative_hours_f p)
        = Inr (Finite velocity, icpt)" and "0 < velocity"
    then have pos: "\<not> float_le_zero (Finite velocity)" by simp
    show "predict_completion_f num data =
              (case fdiv num
                      (fsub num
                         (fadd num (last (cumulative_hours_f p))
                            (Finite (remaining_hours data)))
                         icpt)
                      (Finite velocity) of
                 Finite r \<Rightarrow>
                   if 0 < toordinal (start_date_f p) + py_int r
                      \<and> toordinal (start_date_f p) + py_int r \<le> MAXORDINAL
                   then Inr (Body_success
                          (strftime (fromordinal (toordinal (start_date_f p) + py_int r)))
                          (fround2 num (Finite velocity)))
                   else Inl OverflowError
               | PosInf \<Rightarrow> Inl OverflowError
               | NegInf \<Rightarrow> Inl OverflowError
               | NaN \<Rightarrow> Inl ValueError)"
      unfolding fit f using predict_future_positive [OF v pos] by simp
  qed
  from p a b show ?thesis by blast
qed

theorem C10_negative_remaining_runs_witness:
  "remaining_hours negative_remaining_example = - 1
   \<and> prepare_data_f ideal_numerics negative_remaining_example =
       Inr \<lparr>start_date_f = \<lparr>year = 2024, month = 6, day = 10\<rparr>,
            days_since_start_f = [0, 1, 2],
            cumulative_hours_f = [Finite 1, Finite 3, Finite 6]\<rparr>
   \<and> ffit ideal_numerics [0, 1, 2] [Finite 1, Finite 3, Finite 6]
       = Inr (Finite (5 / 2), Finite (5 / 6))
   \<and> predict_completion_f ideal_numerics negative_remaining_example
       = Inr (Body_success ''2024-06-11'' (Finite (5 / 2)))"
proof -
  let ?p = "\<lparr>start_date_f = \<lparr>year = 2024, month = 6, day = 10\<rparr>,
            days_since_start_f = [0, 1, 2],
            cumulative_hours_f = [Finite 1, Finite 3, Finite 6]\<rparr>"
  have l: "3 \<le> length (sessions negative_remaining_example)"
    by (simp add: negative_remaining_example_def)
  have m: "map (\<lambda>s. strptime (date s)) (sessions negative_remaining_example)
     = [Inr \<lparr>year = 2024, month = 6, day = 10\<rparr>, Inr \<lparr>year = 2024, month = 6, day = 11\<rparr>,
        Inr \<lparr>year = 2024, month = 6, day = 12\<rparr>]"
    by code_simp
  have d: "\<forall>s\<in>set (sessions negative_remaining_example). \<exists>d. strptime (date s) = Inr d"
  proof
    fix s assume "s \<in> set (sessions negative_remaining_example)"
    then have "strptime (date s)
        \<in> set (map (\<lambda>s. strptime (date s)) (sessions negative_remaining_example))"
      by simp
    then show "\<exists>d. strptime (date s) = Inr d"
      unfolding m by auto
  qed
  have r: "remaining_hours negative_remaining_example = - 1"
    by (simp add: negative_remaining_example_def)
  then have r': "remaining_hours negative_remaining_example < 0"
    by simp
  have P: "prepare_data_f ideal_numerics negative_remaining_example = Inr ?p"
    by code_simp
  have f0: "ffit ideal_numerics [0, 1, 2] [Finite 1, Finite 3, Finite 6]
       = Inr (Finite (5 / 2), Finite (5 / 6))"
    by code_simp
  from C10_negative_remaining_runs [OF l d r', of ideal_numerics] obtain p
    where pp: "prepare_data_f ideal_numerics negative_remaining_example = Inr p"
      and run: "\<And>velocity icpt.
          ffit ideal_numerics (days_since_start_f p) (cumulative_hours_f p)
            = Inr (Finite velocity, icpt)
          \<Longrightarrow> 0 < velocity
          \<Longrightarrow> predict_completion_f ideal_numerics negative_remaining_example =
              (case fdiv ideal_numerics
                      (fsub ideal_numerics
                         (fadd ideal_numerics (last (cumulative_hours_f p))
                            (Finite (remaining_hours negative_remaining_example)))
                         icpt)
                      (Finite velocity) of
                 Finite r \<Rightarrow>
                   if 0 < toordinal (start_date_f p) + py_int r
                      \<and> toordinal (start_date_f p) + py_int r \<le> MAXORDINAL
                   then Inr (Body_success
                          (strftime (fromordinal (toordinal (start_date_f p) + py_int r)))
                          (fround2 ideal_numerics (Finite velocity)))
                   else Inl OverflowError
               | PosInf \<Rightarrow> Inl OverflowError
               | NegInf \<Rightarrow> Inl OverflowError
               | NaN \<Rightarrow> Inl ValueError)"
    by blast
  from pp P have pe: "p = ?p" by simp
  have f: "ffit ideal_numerics (days_since_start_f p) (cumulative_hours_f p)
      = Inr (Finite (5 / 2), Finite (5 / 6))"
    unfolding pe using f0 by simp
  have "predict_completion_f ideal_numerics negative_remaining_example =
              (case fdiv ideal_numerics
                      (fsub ideal_numerics
                         (fadd ideal_numerics (last (cumulative_hours_f ?p))
                            (Finite (remaining_hours negative_remaining_example)))
                         (Finite (5 / 6)))
                      (Finite (5 / 2)) of
                 Finite r \<Rightarrow>
                   if 0 < toordinal (start_date_f ?p) + py_int r
                      \<and> toordinal (start_date_f ?p) + py_int r \<le> MAXORDINAL
                   then Inr (Body_success
                          (strftime (fromordinal (toordinal (start_date_f ?p) + py_int r)))
                          (fround2 ideal_numerics (Finite (5 / 2))))
                   else Inl OverflowError
               | PosInf \<Rightarrow> Inl OverflowError
               | NegInf \<Rightarrow> Inl OverflowError
               | NaN \<Rightarrow> Inl ValueError)"
    using run [OF f] unfolding pe by simp
  also have "\<dots> = Inr (Body_success ''2024-06-11'' (Finite (5 / 2)))"
    by code_simp
  finally show ?thesis using r P f0 by simp
qed

subsection \<open>Negative hours\<close>

text \<open>
  C6, as the specification states it, fails: a request whose first session has -2
  hours is answered with status 200 and the success body; the running total starts
  at -2.
\<close>

theorem C6_not_rejected_counterexample:
  "hours (sessions negative_hours_example ! 0) = - 2
   \<and> cumsum (map hours (sessions negative_hours_example)) = [- 2, 1, 4]
   \<and> predict_completion negative_hours_example = Inr (Success ''2024-01-04'' 3)
   \<and> post_predict negative_hours_example = HTTP_OK (Success ''2024-01-04'' 3)
   \<and> status_code (post_predict negative_hours_example) = 200"
  by code_simp

text \<open>
  C6, amended. A session with negative hours is not rejected. For a request with three
  or more sessions whose dates parse, one of them with negative hours, the preparation
  succeeds, the running total is taken over the hours as given, the handler calls the
  fit on it, and the response is never a client error. This holds for every arithmetic
  \<open>num\<close>.
\<close>

theorem C6_negative_hours_reach_the_fit:
  assumes "3 \<le> length (sessions data)"
    and "\<forall>s\<in>set (sessions data). \<exists>d. strptime (date s) = Inr d"
    and "\<exists>s\<in>set (sessions data). hours s < 0"
  shows "\<exists>p. prepare_data_f num data = Inr p
    \<and> cumulative_hours_f p
        = cumsum_f (fadd num) (map (\<lambda>s. Finite (hours s)) (sessions data))
    \<and> predict_completion_f num data =
        (case ffit num (days_since_start_f p) (cumulative_hours_f p) of
           Inl e \<Rightarrow> Inl e
         | Inr model \<Rightarrow> predict_future num data p model)
    \<and> \<not> (400 \<le> post_predict_status num data \<and> post_predict_status num data < 500)"
proof -
  from assms(1) have ne: "sessions data \<noteq> []" by auto
  from prepare_data_f_succeeds [OF ne assms(2)] obtain p
    where p: "prepare_data_f num data = Inr p"
      and y: "cumulative_hours_f p
        = cumsum_f (fadd num) (map (\<lambda>s. Finite (hours s)) (sessions data))"
    by blast
  from p y predict_completion_f_fit [OF assms(1) p] post_predict_status_not_4xx [of num data]
  show ?thesis by blast
qed

theorem C6_negative_hours_reach_the_fit_witness:
  "hours (sessions negative_hours_second ! 1) = - 1 / 2
   \<and> cumsum_f (fadd ideal_numerics)
        (map (\<lambda>s. Finite (hours s)) (sessions negative_hours_second))
       = [Finite 1, Finite (1 / 2), Finite (7 / 2)]
   \<and> predict_completion_f ideal_numerics negative_hours_second
       = Inr (Body_success ''2024-05-05'' (Finite (5 / 4)))
   \<and> post_predict_status ideal_numerics negative_hours_second = 200"
proof -
  have l: "3 \<le> length (sessions negative_hours_second)"
    by (simp add: negative_hours_second_def)
  have m: "map (\<lambda>s. strptime (date s)) (sessions negative_hours_second)
     = [Inr \<lparr>year = 2024, month = 5, day = 1\<rparr>, Inr \<lparr>year = 2024, month = 5, day = 2\<rparr>,
        Inr \<lparr>year = 2024, month = 5, day = 3\<rparr>]"
    by code_simp
  have d: "\<forall>s\<in>set (sessions negative_hours_second). \<exists>d. strptime (date s) = Inr d"
  proof
    fix s assume "s \<in> set (sessions negative_hours_second)"
    then have "strptime (date s)
        \<in> set (map (\<lambda>s. strptime (date s)) (sessions negative_hours_second))"
      by simp
    then show "\<exists>d. strptime (date s) = Inr d"
      unfolding m by auto
  qed
  have n: "\<exists>s\<in>set (sessions negative_hours_second). hours s < 0"
    by (simp add: negative_hours_second_def)
  have c: "hours (sessions negative_hours_second ! 1) = - 1 / 2
   \<and> cumsum_f (fadd ideal_numerics)
        (map (\<lambda>s. Finite (hours s)) (sessions negative_hours_second))
       = [Finite 1, Finite (1 / 2), Finite (7 / 2)]
   \<and> predict_completion_f ideal_numerics negative_hours_second
       = Inr (Body_success ''2024-05-05'' (Finite (5 / 4)))
   \<and> post_predict_status ideal_numerics negative_hours_second = 200"
    by code_simp
  from C6_negative_hours_reach_the_fit [OF l d n, of ideal_numerics] c show ?thesis by blast
qed

subsection \<open>The fit and the closed form\<close>




end
